theory Spec2Isabelle
  imports Main "HOL-Library.Sublist"
begin

section \<open>Data model\<close>

text \<open>
  A context message is the Python dict \<^verbatim>\<open>{'role': ..., 'content': ...}\<close>. The code reads it
  only through \<^verbatim>\<open>msg.get('role')\<close> and \<^verbatim>\<open>msg.get('content', '')\<close>, so each key is an
  optional field: \<open>None\<close> is the absent key. A \<open>string\<close> stands for a Python \<^verbatim>\<open>str\<close>, one
  list element per character, so that \<open>length\<close> is Python's \<^verbatim>\<open>len\<close>.
\<close>

record message =
  role :: "string option"
  content :: "string option"

text \<open>The exceptions of \<^verbatim>\<open>app/utils/errors.py\<close> that the modelled code can meet, and the
  driver's error for a failed query.\<close>

datatype error =
    ContextTooLongError
  | ConversationNotFoundError string
  | DatabaseError

text \<open>Records written by the logger of \<^verbatim>\<open>context_manager.py\<close>, in the order of the calls.\<close>

datatype context_log =
    Info_added_chunks nat
  | Warning_rag_no_chunks
  | Info_sliding_window int nat
  | Warning_context_too_long int
  | Info_truncated nat int

section \<open>Python primitives\<close>

text \<open>\<^verbatim>\<open>xs[i:]\<close> and \<^verbatim>\<open>xs[:k]\<close>: a negative bound counts from the end and every bound is
  clamped to the list.\<close>

definition py_slice_from :: "int \<Rightarrow> 'a list \<Rightarrow> 'a list" where
  "py_slice_from i xs =
     (let n = int (length xs);
          start = (if i < 0 then max 0 (n + i) else min i n)
      in drop (nat start) xs)"

definition py_slice_to :: "int \<Rightarrow> 'a list \<Rightarrow> 'a list" where
  "py_slice_to k xs =
     (let n = int (length xs);
          stop = (if k < 0 then max 0 (n + k) else min k n)
      in take (nat stop) xs)"

text \<open>\<^verbatim>\<open>str(n)\<close> for a natural number: its decimal digits.\<close>

fun str_nat :: "nat \<Rightarrow> string" where
  "str_nat n =
     (if n < 10 then [char_of (48 + n)]
      else str_nat (n div 10) @ [char_of (48 + n mod 10)])"

declare str_nat.simps [simp del]

text \<open>\<^verbatim>\<open>sep.join(xs)\<close>.\<close>

fun join :: "string \<Rightarrow> string list \<Rightarrow> string" where
  "join sep [] = []"
| "join sep [x] = x"
| "join sep (x # y # ys) = x @ sep @ join sep (y # ys)"

section \<open>ContextManager\<close>

text \<open>\<^verbatim>\<open>msg.get('content', '')\<close> and the test \<^verbatim>\<open>msg.get('role') == 'system'\<close>.\<close>

definition get_content :: "message \<Rightarrow> string" where
  "get_content msg = (case content msg of None \<Rightarrow> [] | Some c \<Rightarrow> c)"

definition is_system :: "message \<Rightarrow> bool" where
  "is_system msg = (role msg = Some ''system'')"

text \<open>\<^verbatim>\<open>_apply_sliding_window(messages, max_messages=20)\<close>: the value returned and the log.\<close>

definition apply_sliding_window ::
  "message list \<Rightarrow> int \<Rightarrow> message list \<times> context_log list" where
  "apply_sliding_window messages max_messages =
     (if int (length messages) \<le> max_messages then (messages, [])
      else (py_slice_from (- max_messages) messages,
            [Info_sliding_window max_messages (length messages)]))"

text \<open>\<^verbatim>\<open>_estimate_total_tokens\<close>: the loop adds \<^verbatim>\<open>len(content) // 4\<close> and then 5 to the
  running total, message by message.\<close>

definition estimate_total_tokens :: "message list \<Rightarrow> int" where
  "estimate_total_tokens messages =
     fold (\<lambda>msg total. total + int (length (get_content msg) div 4) + 5) messages 0"

text \<open>The loop of \<^verbatim>\<open>_truncate_context\<close> over \<^verbatim>\<open>reversed(conversation_msgs)\<close>: a message that
  fits is inserted at the front of \<^verbatim>\<open>truncated_conversation\<close>, the first one that does not
  fit ends the loop (\<^verbatim>\<open>break\<close>). It returns the list and \<^verbatim>\<open>current_tokens\<close>.\<close>

fun truncate_loop ::
  "int \<Rightarrow> message list \<Rightarrow> message list \<Rightarrow> int \<Rightarrow> message list \<times> int" where
  "truncate_loop available_tokens [] truncated_conversation current_tokens =
     (truncated_conversation, current_tokens)"
| "truncate_loop available_tokens (msg # rest) truncated_conversation current_tokens =
     (let msg_tokens = estimate_total_tokens [msg]
      in if current_tokens + msg_tokens \<le> available_tokens
         then truncate_loop available_tokens rest (msg # truncated_conversation)
                (current_tokens + msg_tokens)
         else (truncated_conversation, current_tokens))"

text \<open>\<^verbatim>\<open>_truncate_context\<close>, with \<^verbatim>\<open>self.max_context_tokens\<close> as its first argument.
  The \<^verbatim>\<open>raise\<close> is the \<open>Inl\<close> branch; the info record is written only when it returns.\<close>

definition truncate_context ::
  "int \<Rightarrow> message list \<Rightarrow> (error + message list) \<times> context_log list" where
  "truncate_context max_context_tokens messages =
     (if messages = [] then (Inr messages, [])
      else
        let system_msgs = filter (\<lambda>msg. is_system msg) messages;
            conversation_msgs = filter (\<lambda>msg. \<not> is_system msg) messages;
            system_tokens = estimate_total_tokens system_msgs;
            available_tokens = max_context_tokens - system_tokens - 100;
            (truncated_conversation, current_tokens) =
               truncate_loop available_tokens (rev conversation_msgs) [] 0;
            result = system_msgs @ truncated_conversation
        in if truncated_conversation = [] then (Inl ContextTooLongError, [])
           else (Inr result, [Info_truncated (length result) (current_tokens + system_tokens)]))"

text \<open>The body of the context-injection message: the instruction, then every chunk under
  its \<^verbatim>\<open>[Context i+1]\<close> label, the entries joined by an empty line.\<close>

definition context_header :: string where
  \<open>context_header =
     ''Use the following context from uploaded documents to answer the user's questions. \<newline>'' @
     ''If the user asks about "the file" or "this file", they are referring to the content below.\<newline>'' @
     ''Answer based on the provided context. If the context doesn't contain enough information, say so.\<newline>'' @
     ''\<newline>'' @
     ''Context from documents:\<newline>''\<close>

definition context_entry :: "nat \<times> string \<Rightarrow> string" where
  "context_entry = (\<lambda>(i, chunk). ''[Context '' @ str_nat (i + 1) @ '']\<newline>'' @ chunk)"

definition chunks_text :: "string list \<Rightarrow> string" where
  "chunks_text retrieved_chunks =
     join ''\<newline>\<newline>'' (map context_entry (enumerate 0 retrieved_chunks))"

definition context_content :: "string list \<Rightarrow> string" where
  "context_content retrieved_chunks = context_header @ chunks_text retrieved_chunks"

text \<open>The two framing steps of \<^verbatim>\<open>prepare_context\<close>. \<^verbatim>\<open>if system_prompt:\<close> and
  \<^verbatim>\<open>if retrieved_chunks:\<close> are Python truth tests: \<^verbatim>\<open>None\<close>, the empty string and the empty
  list are all false.\<close>

definition system_prompt_messages :: "string option \<Rightarrow> message list" where
  "system_prompt_messages system_prompt =
     (case system_prompt of
        None \<Rightarrow> []
      | Some p \<Rightarrow> if p = [] then [] else [\<lparr>role = Some ''system'', content = Some p\<rparr>])"

definition retrieved_chunks_messages ::
  "string list option \<Rightarrow> bool \<Rightarrow> message list \<times> context_log list" where
  "retrieved_chunks_messages retrieved_chunks rag_enabled =
     (case retrieved_chunks of
        Some (c # cs) \<Rightarrow>
          ([\<lparr>role = Some ''system'', content = Some (context_content (c # cs))\<rparr>],
           [Info_added_chunks (length (c # cs))])
      | _ \<Rightarrow> ([], if rag_enabled then [Warning_rag_no_chunks] else []))"

text \<open>\<^verbatim>\<open>prepare_context\<close>, with \<^verbatim>\<open>self.max_context_tokens\<close> as its first argument: the
  result (\<open>Inl\<close> when \<^verbatim>\<open>_truncate_context\<close> raises) and the log.\<close>

definition prepare_context ::
  "int \<Rightarrow> message list \<Rightarrow> string option \<Rightarrow> string list option \<Rightarrow> bool \<Rightarrow>
     (error + message list) \<times> context_log list" where
  "prepare_context max_context_tokens messages system_prompt retrieved_chunks rag_enabled =
     (let (chunk_msgs, log1) = retrieved_chunks_messages retrieved_chunks rag_enabled;
          (conversation_messages, log2) = apply_sliding_window messages 20;
          context_messages =
            system_prompt_messages system_prompt @ chunk_msgs @ conversation_messages;
          total_tokens = estimate_total_tokens context_messages
      in if total_tokens > max_context_tokens
         then (let (res, log3) = truncate_context max_context_tokens context_messages
               in (res, log1 @ log2 @ [Warning_context_too_long total_tokens] @ log3))
         else (Inr context_messages, log1 @ log2))"

text \<open>The spec's wording of truncation, for comparison with \<open>truncate_loop\<close>: conversation
  messages are dropped from the oldest end, one at a time, until the remaining ones fit.\<close>

fun drop_oldest_until_fit :: "int \<Rightarrow> message list \<Rightarrow> message list" where
  "drop_oldest_until_fit available [] = []"
| "drop_oldest_until_fit available (msg # rest) =
     (if estimate_total_tokens (msg # rest) \<le> available then msg # rest
      else drop_oldest_until_fit available rest)"

text \<open>Names for the statements below: a message with both keys, as
  \<^verbatim>\<open>format_messages_for_llm\<close> builds it; the history after the sliding window; and the
  value of \<^verbatim>\<open>context_messages\<close> in \<^verbatim>\<open>prepare_context\<close> when the token count is taken
  (system prompt, context message, windowed history).\<close>

definition mk_message :: "string \<Rightarrow> string \<Rightarrow> message" where
  "mk_message r c = \<lparr>role = Some r, content = Some c\<rparr>"

definition windowed_history :: "message list \<Rightarrow> message list" where
  "windowed_history messages = fst (apply_sliding_window messages 20)"

definition context_messages ::
  "message list \<Rightarrow> string option \<Rightarrow> string list option \<Rightarrow> message list" where
  "context_messages messages system_prompt retrieved_chunks =
     system_prompt_messages system_prompt
       @ fst (retrieved_chunks_messages retrieved_chunks False)
       @ windowed_history messages"

section \<open>Storage\<close>

text \<open>
  The tables the retriever reads, with the columns it uses. \<^verbatim>\<open>db.execute_query\<close> sends a
  SELECT to MySQL; the model gives each SELECT of the repositories its relational meaning
  (WHERE as a filter, ORDER BY as a sort, LIMIT as a prefix) over these tables. Rows that
  tie under ORDER BY, and the rows of a query without ORDER BY, come in table order, which
  SQL leaves open. The two text operators of the engine, \<^verbatim>\<open>MATCH ... AGAINST\<close> in natural
  language mode and \<^verbatim>\<open>LIKE\<close>, are parameters, and so is \<open>fault\<close>, which says for which
  statements the driver raises (connection lost, missing FULLTEXT index, ...).
\<close>

record conversation_row =
  conv_id :: int
  conv_conversation_id :: string
  conv_status :: string

record document_row =
  doc_id :: int

record conversation_document_row =
  cd_conversation_id :: int
  cd_document_id :: int

record chunk_row =
  chunk_document_id :: int
  chunk_index :: int
  chunk_text :: string

datatype sql_query =
    Select_conversation string
  | Select_linked_documents int
  | Select_fulltext "int list" string int
  | Select_like "int list" "string list" int
  | Select_first_chunks "int list" int
  | Select_chunks_by_document int

record database =
  conversations :: "conversation_row list"
  documents :: "document_row list"
  conversation_documents :: "conversation_document_row list"
  document_chunks :: "chunk_row list"
  match_against :: "string \<Rightarrow> string \<Rightarrow> bool"
  like :: "string \<Rightarrow> string \<Rightarrow> bool"
  fault :: "sql_query \<Rightarrow> bool"

text \<open>\<^verbatim>\<open>ORDER BY chunk_index ASC LIMIT n\<close>; a negative \<^verbatim>\<open>n\<close> is a syntax error of the
  statement, which the callers below turn into \<open>DatabaseError\<close>.\<close>

definition order_by_chunk_index :: "chunk_row list \<Rightarrow> chunk_row list" where
  "order_by_chunk_index rows = sort_key chunk_index rows"

definition select_fulltext ::
  "database \<Rightarrow> int list \<Rightarrow> string \<Rightarrow> int \<Rightarrow> error + chunk_row list" where
  "select_fulltext db doc_db_ids search_query limit =
     (if fault db (Select_fulltext doc_db_ids search_query limit) \<or> limit < 0
      then Inl DatabaseError
      else Inr (take (nat limit) (order_by_chunk_index
             (filter (\<lambda>r. chunk_document_id r \<in> set doc_db_ids
                          \<and> match_against db search_query (chunk_text r))
                (document_chunks db)))))"

definition select_like ::
  "database \<Rightarrow> int list \<Rightarrow> string list \<Rightarrow> int \<Rightarrow> error + chunk_row list" where
  "select_like db doc_db_ids patterns limit =
     (if fault db (Select_like doc_db_ids patterns limit) \<or> limit < 0
      then Inl DatabaseError
      else Inr (take (nat limit) (order_by_chunk_index
             (filter (\<lambda>r. chunk_document_id r \<in> set doc_db_ids
                          \<and> list_ex (\<lambda>p. like db p (chunk_text r)) patterns)
                (document_chunks db)))))"

definition select_first_chunks ::
  "database \<Rightarrow> int list \<Rightarrow> int \<Rightarrow> error + chunk_row list" where
  "select_first_chunks db doc_db_ids limit =
     (if fault db (Select_first_chunks doc_db_ids limit) \<or> limit < 0
      then Inl DatabaseError
      else Inr (take (nat limit) (order_by_chunk_index
             (filter (\<lambda>r. chunk_document_id r \<in> set doc_db_ids) (document_chunks db)))))"

section \<open>Repositories\<close>

text \<open>\<^verbatim>\<open>search_query.split()\<close>: the maximal runs of characters that are not white space
  (\<^verbatim>\<open>str.isspace\<close>, on the characters below 256).\<close>

definition is_space :: "char \<Rightarrow> bool" where
  "is_space c =
     (let n = (of_char c :: nat)
      in (9 \<le> n \<and> n \<le> 13) \<or> (28 \<le> n \<and> n \<le> 32) \<or> n = 133 \<or> n = 160)"

fun split_words :: "string \<Rightarrow> string \<Rightarrow> string list" where
  "split_words [] word = (if word = [] then [] else [word])"
| "split_words (c # cs) word =
     (if is_space c then (if word = [] then split_words cs [] else word # split_words cs [])
      else split_words cs (word @ [c]))"

definition py_split :: "string \<Rightarrow> string list" where
  "py_split s = split_words s []"

text \<open>\<^verbatim>\<open>DocumentRepository.search_chunks\<close>: the FULLTEXT statement first; when it raises or
  finds nothing, the LIKE statement over the keywords, or the first chunks when the query
  has no keyword. An exception of the second statement is not caught here.\<close>

definition search_chunks ::
  "database \<Rightarrow> int list \<Rightarrow> string \<Rightarrow> int \<Rightarrow> error + chunk_row list" where
  "search_chunks db doc_db_ids search_query limit =
     (if doc_db_ids = [] then Inr []
      else
        case select_fulltext db doc_db_ids search_query limit of
          Inr (r # rs) \<Rightarrow> Inr (r # rs)
        | _ \<Rightarrow>
           (let keywords = py_split search_query
            in if keywords = [] then select_first_chunks db doc_db_ids limit
               else select_like db doc_db_ids
                      (map (\<lambda>keyword. ''%'' @ keyword @ ''%'') keywords) limit))"

text \<open>\<^verbatim>\<open>DocumentRepository.get_chunks_by_document\<close>.\<close>

definition get_chunks_by_document :: "database \<Rightarrow> int \<Rightarrow> error + chunk_row list" where
  "get_chunks_by_document db doc_db_id =
     (if fault db (Select_chunks_by_document doc_db_id) then Inl DatabaseError
      else Inr (order_by_chunk_index
             (filter (\<lambda>r. chunk_document_id r = doc_db_id) (document_chunks db))))"

text \<open>\<^verbatim>\<open>ConversationRepository.get_conversation_by_id\<close> and \<^verbatim>\<open>get_linked_documents\<close>. The
  join lists the documents link by link.\<close>

definition get_conversation_by_id :: "database \<Rightarrow> string \<Rightarrow> error + conversation_row" where
  "get_conversation_by_id db conversation_id =
     (if fault db (Select_conversation conversation_id) then Inl DatabaseError
      else
        case filter (\<lambda>c. conv_conversation_id c = conversation_id
                          \<and> conv_status c \<noteq> ''deleted'') (conversations db) of
          [] \<Rightarrow> Inl (ConversationNotFoundError conversation_id)
        | c # _ \<Rightarrow> Inr c)"

definition get_linked_documents :: "database \<Rightarrow> int \<Rightarrow> error + document_row list" where
  "get_linked_documents db conv_db_id =
     (if fault db (Select_linked_documents conv_db_id) then Inl DatabaseError
      else Inr (concat (map (\<lambda>cd. filter (\<lambda>d. doc_id d = cd_document_id cd) (documents db))
                  (filter (\<lambda>cd. cd_conversation_id cd = conv_db_id)
                     (conversation_documents db)))))"

section \<open>RAGService\<close>

text \<open>Records written by the logger of \<^verbatim>\<open>rag_service.py\<close>.\<close>

datatype rag_log =
    Warning_no_documents string
  | Warning_no_chunks_found
  | Info_fallback nat int
  | Info_retrieved nat
  | Error_retrieving error

text \<open>The fallback loop of \<^verbatim>\<open>retrieve_relevant_chunks\<close> over \<^verbatim>\<open>doc_db_ids\<close>: the first
  three chunks of every document that has chunks, until \<^verbatim>\<open>max_chunks\<close> texts are there.\<close>

fun fallback_loop ::
  "database \<Rightarrow> int \<Rightarrow> int list \<Rightarrow> string list \<Rightarrow> rag_log list \<Rightarrow>
     (error + string list) \<times> rag_log list" where
  "fallback_loop db max_chunks [] chunk_texts log = (Inr chunk_texts, log)"
| "fallback_loop db max_chunks (doc_db_id # rest) chunk_texts log =
     (case get_chunks_by_document db doc_db_id of
        Inl e \<Rightarrow> (Inl e, log)
      | Inr all_chunks \<Rightarrow>
          if all_chunks \<noteq> [] then
            (let chunk_texts' = chunk_texts @ map chunk_text (take 3 all_chunks);
                 log' = log @ [Info_fallback (length (take 3 all_chunks)) doc_db_id]
             in if max_chunks \<le> int (length chunk_texts') then (Inr chunk_texts', log')
                else fallback_loop db max_chunks rest chunk_texts' log')
          else fallback_loop db max_chunks rest chunk_texts log)"

text \<open>The \<^verbatim>\<open>try\<close> block of \<^verbatim>\<open>retrieve_relevant_chunks\<close>, with \<^verbatim>\<open>self.max_chunks\<close> as a
  parameter: \<open>Inl\<close> is an exception leaving the block, with the log written until then.\<close>

definition retrieve_try ::
  "database \<Rightarrow> int \<Rightarrow> string \<Rightarrow> string \<Rightarrow> (error + string list) \<times> rag_log list" where
  "retrieve_try db max_chunks conversation_id user_query =
     (case get_conversation_by_id db conversation_id of
        Inl e \<Rightarrow> (Inl e, [])
      | Inr conversation \<Rightarrow>
         (case get_linked_documents db (conv_id conversation) of
            Inl e \<Rightarrow> (Inl e, [])
          | Inr linked_docs \<Rightarrow>
             if linked_docs = [] then (Inr [], [Warning_no_documents conversation_id])
             else
               (let doc_db_ids = map doc_id linked_docs
                in case search_chunks db doc_db_ids user_query max_chunks of
                     Inl e \<Rightarrow> (Inl e, [])
                   | Inr chunks \<Rightarrow>
                      (let chunk_texts = map chunk_text chunks
                       in if chunk_texts = [] then
                            (case fallback_loop db max_chunks doc_db_ids chunk_texts
                                    [Warning_no_chunks_found] of
                               (Inl e, log) \<Rightarrow> (Inl e, log)
                             | (Inr chunk_texts', log) \<Rightarrow>
                                 (Inr (py_slice_to max_chunks chunk_texts'),
                                  log @ [Info_retrieved (length chunk_texts')]))
                          else (Inr (py_slice_to max_chunks chunk_texts),
                                [Info_retrieved (length chunk_texts)])))))"

text \<open>\<^verbatim>\<open>retrieve_relevant_chunks\<close>: the \<^verbatim>\<open>except Exception\<close> clause logs the error and
  returns the empty list.\<close>

definition retrieve_relevant_chunks ::
  "database \<Rightarrow> int \<Rightarrow> string \<Rightarrow> string \<Rightarrow> string list \<times> rag_log list" where
  "retrieve_relevant_chunks db max_chunks conversation_id user_query =
     (case retrieve_try db max_chunks conversation_id user_query of
        (Inl e, log) \<Rightarrow> ([], log @ [Error_retrieving e])
      | (Inr chunk_texts, log) \<Rightarrow> (chunk_texts, log))"

text \<open>The spec's wording of the order of search results, for comparison with
  \<open>search_chunks\<close>: documents in the order in which they were linked (the order of
  \<open>doc_db_ids\<close>), and ascending chunk index within a document.\<close>

definition doc_rank :: "int list \<Rightarrow> int \<Rightarrow> nat" where
  "doc_rank doc_db_ids d = length (takeWhile (\<lambda>x. x \<noteq> d) doc_db_ids)"

definition linked_order :: "int list \<Rightarrow> chunk_row list \<Rightarrow> bool" where
  "linked_order doc_db_ids rows =
     sorted_wrt (\<lambda>a b. doc_rank doc_db_ids (chunk_document_id a)
                          < doc_rank doc_db_ids (chunk_document_id b)
                      \<or> (chunk_document_id a = chunk_document_id b
                          \<and> chunk_index a \<le> chunk_index b)) rows"

text \<open>A database for the instances below: conversation \<open>c1\<close> with the documents 1 and 2
  linked in this order, conversation \<open>c2\<close> without documents; document 1 has four chunks
  and document 2 has three. No statement fails, and no chunk matches a query text.\<close>

definition example_database :: database where
  "example_database =
     \<lparr>conversations =
        [\<lparr>conv_id = 10, conv_conversation_id = ''c1'', conv_status = ''active''\<rparr>,
         \<lparr>conv_id = 11, conv_conversation_id = ''c2'', conv_status = ''active''\<rparr>],
      documents = [\<lparr>doc_id = 1\<rparr>, \<lparr>doc_id = 2\<rparr>],
      conversation_documents =
        [\<lparr>cd_conversation_id = 10, cd_document_id = 1\<rparr>,
         \<lparr>cd_conversation_id = 10, cd_document_id = 2\<rparr>],
      document_chunks =
        [\<lparr>chunk_document_id = 1, chunk_index = 0, chunk_text = ''a0''\<rparr>,
         \<lparr>chunk_document_id = 1, chunk_index = 1, chunk_text = ''a1''\<rparr>,
         \<lparr>chunk_document_id = 1, chunk_index = 2, chunk_text = ''a2''\<rparr>,
         \<lparr>chunk_document_id = 1, chunk_index = 3, chunk_text = ''a3''\<rparr>,
         \<lparr>chunk_document_id = 2, chunk_index = 0, chunk_text = ''b0''\<rparr>,
         \<lparr>chunk_document_id = 2, chunk_index = 1, chunk_text = ''b1''\<rparr>,
         \<lparr>chunk_document_id = 2, chunk_index = 2, chunk_text = ''b2''\<rparr>],
      match_against = (\<lambda>search_query text. False),
      like = (\<lambda>pattern text. False),
      fault = (\<lambda>q. False)\<rparr>"

section \<open>Facts about the token estimate and truncation\<close>

lemma fold_tokens_acc:
  "fold (\<lambda>msg total. total + int (length (get_content msg) div 4) + 5) msgs a
     = a + (\<Sum>msg\<leftarrow>msgs. int (length (get_content msg) div 4) + 5)"
  by (induction msgs arbitrary: a) simp_all

lemma estimate_sum:
  "estimate_total_tokens msgs = (\<Sum>msg\<leftarrow>msgs. int (length (get_content msg) div 4) + 5)"
  by (simp add: estimate_total_tokens_def fold_tokens_acc)

lemma estimate_Nil: "estimate_total_tokens [] = 0"
  by (simp add: estimate_sum)

lemma estimate_Cons:
  "estimate_total_tokens (m # ms) = estimate_total_tokens [m] + estimate_total_tokens ms"
  by (simp add: estimate_sum)

lemma estimate_append:
  "estimate_total_tokens (xs @ ys) = estimate_total_tokens xs + estimate_total_tokens ys"
  by (simp add: estimate_sum)

lemma estimate_nonneg: "0 \<le> estimate_total_tokens ms"
  by (induction ms) (simp_all add: estimate_sum)

lemma estimate_last_le: "xs \<noteq> [] \<Longrightarrow> estimate_total_tokens [last xs] \<le> estimate_total_tokens xs"
proof (induction xs)
  case Nil then show ?case by simp
next
  case (Cons x xs)
  show ?case
  proof (cases "xs = []")
    case True then show ?thesis by simp
  next
    case False
    with Cons have "estimate_total_tokens [last xs] \<le> estimate_total_tokens xs" by simp
    moreover have "0 \<le> estimate_total_tokens [x]" by (rule estimate_nonneg)
    ultimately show ?thesis using False estimate_Cons [of x xs] by simp
  qed
qed

lemma drop_oldest_skip:
  "avail < estimate_total_tokens acc \<Longrightarrow>
   drop_oldest_until_fit avail (xs @ acc) = drop_oldest_until_fit avail acc"
proof (induction xs)
  case Nil then show ?case by simp
next
  case (Cons x xs)
  have "estimate_total_tokens acc \<le> estimate_total_tokens ((x # xs) @ acc)"
    using estimate_append [of "x # xs" acc] estimate_nonneg [of "x # xs"] by simp
  with Cons.prems have "avail < estimate_total_tokens (x # xs @ acc)" by simp
  then have "drop_oldest_until_fit avail ((x # xs) @ acc) = drop_oldest_until_fit avail (xs @ acc)"
    by simp
  with Cons show ?case by simp
qed

lemma drop_oldest_fits:
  "acc = [] \<or> estimate_total_tokens acc \<le> avail \<Longrightarrow> drop_oldest_until_fit avail acc = acc"
  by (cases acc) auto

lemma truncate_loop_drop_oldest:
  "acc = [] \<or> estimate_total_tokens acc \<le> avail \<Longrightarrow>
   truncate_loop avail ys acc (estimate_total_tokens acc) =
     (drop_oldest_until_fit avail (rev ys @ acc),
      estimate_total_tokens (drop_oldest_until_fit avail (rev ys @ acc)))"
proof (induction ys arbitrary: acc)
  case Nil
  then show ?case by (simp add: drop_oldest_fits)
next
  case (Cons y ys)
  show ?case
  proof (cases "estimate_total_tokens acc + estimate_total_tokens [y] \<le> avail")
    case True
    then have fit: "estimate_total_tokens (y # acc) \<le> avail"
      using estimate_Cons [of y acc] by simp
    have "truncate_loop avail (y # ys) acc (estimate_total_tokens acc)
            = truncate_loop avail ys (y # acc) (estimate_total_tokens (y # acc))"
      using True estimate_Cons [of y acc] by (simp add: Let_def add.commute)
    also have "\<dots> = (drop_oldest_until_fit avail (rev ys @ y # acc),
                      estimate_total_tokens (drop_oldest_until_fit avail (rev ys @ y # acc)))"
      using fit by (intro Cons.IH) simp
    finally show ?thesis by simp
  next
    case False
    then have over: "avail < estimate_total_tokens (y # acc)"
      using estimate_Cons [of y acc] by simp
    have "drop_oldest_until_fit avail (rev ys @ (y # acc)) = drop_oldest_until_fit avail (y # acc)"
      using over by (rule drop_oldest_skip)
    also have "\<dots> = drop_oldest_until_fit avail acc" using over by simp
    also have "\<dots> = acc" using Cons.prems by (rule drop_oldest_fits)
    finally have "drop_oldest_until_fit avail (rev (y # ys) @ acc) = acc" by simp
    moreover have "truncate_loop avail (y # ys) acc (estimate_total_tokens acc)
                     = (acc, estimate_total_tokens acc)"
      using False by (simp add: Let_def)
    ultimately show ?thesis by simp
  qed
qed

lemma truncate_loop_start:
  "truncate_loop avail (rev conv) [] 0 =
     (drop_oldest_until_fit avail conv, estimate_total_tokens (drop_oldest_until_fit avail conv))"
  using truncate_loop_drop_oldest [of "[]" avail "rev conv"] by (simp add: estimate_Nil)

lemma drop_oldest_suffix: "suffix (drop_oldest_until_fit avail xs) xs"
  by (induction xs) (auto simp: suffix_Cons)

lemma drop_oldest_within:
  "drop_oldest_until_fit avail xs \<noteq> [] \<Longrightarrow>
   estimate_total_tokens (drop_oldest_until_fit avail xs) \<le> avail"
  by (induction xs) (auto split: if_splits)

lemma drop_oldest_longest:
  "suffix s xs \<Longrightarrow> estimate_total_tokens s \<le> avail \<Longrightarrow> suffix s (drop_oldest_until_fit avail xs)"
proof (induction xs)
  case Nil then show ?case by simp
next
  case (Cons x xs)
  then show ?case by (auto simp: suffix_Cons)
qed

lemma drop_oldest_empty_iff:
  "drop_oldest_until_fit avail xs = [] \<longleftrightarrow>
     xs = [] \<or> avail < estimate_total_tokens [last xs]"
proof (induction xs)
  case Nil then show ?case by simp
next
  case (Cons x xs)
  show ?case
  proof (cases "estimate_total_tokens (x # xs) \<le> avail")
    case True
    moreover have "estimate_total_tokens [last (x # xs)] \<le> estimate_total_tokens (x # xs)"
      by (rule estimate_last_le) simp
    ultimately show ?thesis by simp
  next
    case False
    then show ?thesis using Cons by (cases "xs = []") auto
  qed
qed

lemma truncate_context_fst:
  "messages \<noteq> [] \<Longrightarrow>
   fst (truncate_context max_context_tokens messages) =
     (let system_msgs = filter is_system messages;
          kept = drop_oldest_until_fit
                   (max_context_tokens - estimate_total_tokens system_msgs - 100)
                   (filter (\<lambda>msg. \<not> is_system msg) messages)
      in if kept = [] then Inl ContextTooLongError else Inr (system_msgs @ kept))"
  by (simp add: truncate_context_def truncate_loop_start Let_def)

lemma prepare_context_fst:
  "fst (prepare_context max_context_tokens messages system_prompt retrieved_chunks rag_enabled) =
     (let cm = context_messages messages system_prompt retrieved_chunks
      in if max_context_tokens < estimate_total_tokens cm
         then fst (truncate_context max_context_tokens cm) else Inr cm)"
  by (auto simp: prepare_context_def context_messages_def windowed_history_def retrieved_chunks_messages_def Let_def
      split: prod.splits option.splits list.splits)

lemma is_system_framing:
  "filter is_system (system_prompt_messages sp) = system_prompt_messages sp"
  "filter is_system (fst (retrieved_chunks_messages rc rag)) = fst (retrieved_chunks_messages rc rag)"
  "filter (\<lambda>m. \<not> is_system m) (system_prompt_messages sp) = []"
  "filter (\<lambda>m. \<not> is_system m) (fst (retrieved_chunks_messages rc rag)) = []"
  by (auto simp: system_prompt_messages_def retrieved_chunks_messages_def is_system_def
      split: option.splits list.splits)

lemma retrieved_chunks_messages_flag:
  "fst (retrieved_chunks_messages rc rag) = fst (retrieved_chunks_messages rc False)"
  by (auto simp: retrieved_chunks_messages_def split: option.splits list.splits)

lemma context_messages_system:
  "filter is_system (context_messages msgs sp rc) =
     system_prompt_messages sp @ fst (retrieved_chunks_messages rc False)
       @ filter is_system (windowed_history msgs)"
  by (simp add: context_messages_def is_system_framing)

lemma context_messages_conversation:
  "filter (\<lambda>m. \<not> is_system m) (context_messages msgs sp rc) =
     filter (\<lambda>m. \<not> is_system m) (windowed_history msgs)"
  by (simp add: context_messages_def is_system_framing)

lemma windowed_history_eq:
  "windowed_history messages =
     (if length messages \<le> 20 then messages else drop (length messages - 20) messages)"
  by (auto simp: windowed_history_def apply_sliding_window_def py_slice_from_def Let_def
      nat_diff_distrib')

lemma windowed_history_subset: "set (windowed_history messages) \<subseteq> set messages"
  by (auto simp: windowed_history_eq dest: in_set_dropD)

lemma prepare_context_truncated:
  assumes "b < estimate_total_tokens (context_messages msgs sp rc)"
  shows "fst (prepare_context b msgs sp rc rag) =
     (let system_msgs = filter is_system (context_messages msgs sp rc);
          kept = drop_oldest_until_fit (b - estimate_total_tokens system_msgs - 100)
                   (filter (\<lambda>m. \<not> is_system m) (windowed_history msgs))
      in if kept = [] \<and> context_messages msgs sp rc \<noteq> [] then Inl ContextTooLongError
         else Inr (system_msgs @ kept))"
proof (cases "context_messages msgs sp rc = []")
  case True
  then have "windowed_history msgs = []" by (simp add: context_messages_def)
  then show ?thesis using assms True
    by (simp add: prepare_context_fst truncate_context_def Let_def)
next
  case False
  then show ?thesis using assms
    by (simp add: prepare_context_fst truncate_context_fst Let_def context_messages_conversation)
qed

lemmas eval_defs = prepare_context_fst context_messages_def windowed_history_eq
  truncate_context_fst system_prompt_messages_def retrieved_chunks_messages_def
  is_system_def mk_message_def estimate_sum get_content_def Let_def

lemma prepare_context_shape:
  assumes "fst (prepare_context b msgs sp rc rag) = Inr out"
  shows "\<exists>rest. out = system_prompt_messages sp @ fst (retrieved_chunks_messages rc False) @ rest
                \<and> set rest \<subseteq> set msgs"
proof (cases "b < estimate_total_tokens (context_messages msgs sp rc)")
  case False
  with assms have "out = context_messages msgs sp rc" by (simp add: prepare_context_fst)
  then show ?thesis using windowed_history_subset [of msgs] by (auto simp: context_messages_def)
next
  case True
  let ?k = "drop_oldest_until_fit
              (b - estimate_total_tokens (filter is_system (context_messages msgs sp rc)) - 100)
              (filter (\<lambda>m. \<not> is_system m) (windowed_history msgs))"
  have "out = filter is_system (context_messages msgs sp rc) @ ?k"
    using assms prepare_context_truncated [OF True, of rag] by (simp add: Let_def split: if_splits)
  then have out: "out = system_prompt_messages sp @ fst (retrieved_chunks_messages rc False)
                    @ (filter is_system (windowed_history msgs) @ ?k)"
    by (simp add: context_messages_system)
  have "set ?k \<subseteq> set (filter (\<lambda>m. \<not> is_system m) (windowed_history msgs))"
    by (rule set_mono_suffix) (rule drop_oldest_suffix)
  then have "set (filter is_system (windowed_history msgs) @ ?k) \<subseteq> set msgs"
    using windowed_history_subset [of msgs] by auto
  with out show ?thesis by blast
qed

lemma context_entries_nth:
  "map context_entry (enumerate 0 chunks) =
     map (\<lambda>i. ''[Context '' @ str_nat (i + 1) @ '']\<newline>'' @ chunks ! i) [0..<length chunks]"
  by (rule nth_equalityI) (simp_all add: context_entry_def nth_enumerate_eq)

lemma prepare_context_rag_flag:
  "rc = None \<or> rc = Some [] \<Longrightarrow>
     fst (prepare_context b msgs sp rc True) = fst (prepare_context b msgs sp rc False)
     \<and> snd (prepare_context b msgs sp rc True)
         = Warning_rag_no_chunks # snd (prepare_context b msgs sp rc False)"
  by (auto simp: prepare_context_def retrieved_chunks_messages_def Let_def split: prod.splits)

section \<open>Claims about the context assembler\<close>

text \<open>
  Claim C3. The sliding window leaves a history of at most 20 messages as it is, and of a
  longer history it returns exactly the last 20 messages, in their original order: the
  history without its first \<open>length messages - 20\<close> messages.
\<close>

theorem sliding_window_last_20:
  "(length messages \<le> 20 \<longrightarrow> fst (apply_sliding_window messages 20) = messages)
   \<and> (20 < length messages \<longrightarrow>
        fst (apply_sliding_window messages 20) = drop (length messages - 20) messages
        \<and> length (fst (apply_sliding_window messages 20)) = 20
        \<and> suffix (fst (apply_sliding_window messages 20)) messages)"
  using windowed_history_eq [of messages]
  by (auto simp: windowed_history_def suffix_drop)

theorem sliding_window_last_20_witness:
  "fst (apply_sliding_window (map (\<lambda>i. mk_message ''user'' (str_nat i)) [0..<21]) 20)
     = map (\<lambda>i. mk_message ''user'' (str_nat i)) [1..<21]
   \<and> fst (apply_sliding_window [mk_message ''user'' ''Hello'', mk_message ''assistant'' ''Hi''] 20)
     = [mk_message ''user'' ''Hello'', mk_message ''assistant'' ''Hi'']"
  using sliding_window_last_20 [of "map (\<lambda>i. mk_message ''user'' (str_nat i)) [0..<21]"]
    sliding_window_last_20 [of "[mk_message ''user'' ''Hello'', mk_message ''assistant'' ''Hi'']"]
  by (simp add: drop_map)

text \<open>
  Claim C4. The token estimate of a list of messages is the sum, over the messages, of
  the length of the content divided by 4 (rounded down) plus 5. It is a function of the
  contents alone, and for two messages of the same role the one with the shorter content
  never has the larger estimate.
\<close>

theorem estimate_total_tokens_sum_monotone:
  "estimate_total_tokens messages =
     (\<Sum>msg\<leftarrow>messages. int (length (get_content msg) div 4) + 5)
   \<and> (role m1 = role m2 \<and> length (get_content m1) \<le> length (get_content m2)
        \<longrightarrow> estimate_total_tokens [m1] \<le> estimate_total_tokens [m2])"
  by (simp add: estimate_sum div_le_mono)

theorem estimate_total_tokens_sum_monotone_witness:
  "estimate_total_tokens [mk_message ''user'' ''Hello world'', mk_message ''assistant'' ''Hi''] = 12
   \<and> estimate_total_tokens [mk_message ''user'' ''Hi'']
       \<le> estimate_total_tokens [mk_message ''user'' ''Hello world'']"
  using estimate_total_tokens_sum_monotone
          [of "[mk_message ''user'' ''Hello world'', mk_message ''assistant'' ''Hi'']"
              "mk_message ''user'' ''Hi''" "mk_message ''user'' ''Hello world''"]
  by (simp add: mk_message_def get_content_def)

text \<open>
  Claim C5. When the estimate of the assembled sequence is within the token budget,
  \<open>prepare_context\<close> returns the assembled sequence itself: the system prompt message if
  there is one, the context message if there is one, and the windowed history, in this
  order, with nothing dropped.
\<close>

theorem prepare_context_within_budget:
  "estimate_total_tokens (context_messages messages system_prompt retrieved_chunks)
     \<le> max_context_tokens
   \<Longrightarrow> fst (prepare_context max_context_tokens messages system_prompt retrieved_chunks rag_enabled)
         = Inr (system_prompt_messages system_prompt
                  @ fst (retrieved_chunks_messages retrieved_chunks rag_enabled)
                  @ fst (apply_sliding_window messages 20))"
  using retrieved_chunks_messages_flag [of retrieved_chunks rag_enabled]
  by (simp add: prepare_context_fst context_messages_def windowed_history_def)

theorem prepare_context_within_budget_witness:
  "estimate_total_tokens
     (context_messages [mk_message ''user'' ''Hello''] (Some ''Be brief.'') (Some [''A'']))
     \<le> 4000
   \<and> fst (prepare_context 4000 [mk_message ''user'' ''Hello''] (Some ''Be brief.'')
            (Some [''A'']) True)
       = Inr [mk_message ''system'' ''Be brief.'',
              mk_message ''system'' (context_content [''A'']),
              mk_message ''user'' ''Hello'']"
proof -
  have h: "estimate_total_tokens
     (context_messages [mk_message ''user'' ''Hello''] (Some ''Be brief.'') (Some [''A'']))
     \<le> 4000"
    by code_simp
  show ?thesis
    using h prepare_context_within_budget [OF h, of True]
    by (simp add: system_prompt_messages_def retrieved_chunks_messages_def
        apply_sliding_window_def mk_message_def)
qed

text \<open>
  Claim C1, as the code has it. \<open>prepare_context\<close> fails with \<open>ContextTooLongError\<close>
  exactly when the estimate of the (non-empty) assembled sequence exceeds the budget and no
  conversation message survives truncation: there is no message of a role other than
  \<open>system\<close>, or the most recent one alone does not fit in the budget minus the system
  tokens minus 100. Whether the system messages themselves exceed the budget plays no
  part. It raises nothing else, and in every other case it returns a message list.
\<close>

theorem prepare_context_overflow_iff:
  "(fst (prepare_context b msgs sp rc rag) = Inl ContextTooLongError) =
     (b < estimate_total_tokens (context_messages msgs sp rc)
      \<and> context_messages msgs sp rc \<noteq> []
      \<and> (filter (\<lambda>m. \<not> is_system m) (windowed_history msgs) = []
         \<or> b - estimate_total_tokens (filter is_system (context_messages msgs sp rc)) - 100
             < estimate_total_tokens
                 [last (filter (\<lambda>m. \<not> is_system m) (windowed_history msgs))]))
   \<and> (\<forall>e. fst (prepare_context b msgs sp rc rag) = Inl e \<longrightarrow> e = ContextTooLongError)
   \<and> (fst (prepare_context b msgs sp rc rag) \<noteq> Inl ContextTooLongError
        \<longrightarrow> (\<exists>out. fst (prepare_context b msgs sp rc rag) = Inr out))"
proof (cases "b < estimate_total_tokens (context_messages msgs sp rc)")
  case True
  show ?thesis
    using True by (auto simp: prepare_context_truncated [OF True] Let_def drop_oldest_empty_iff)
next
  case False
  then show ?thesis by (simp add: prepare_context_fst)
qed

theorem prepare_context_overflow_iff_witness:
  "fst (prepare_context 4000 [mk_message ''user'' (replicate 16000 CHR ''a'')]
          (Some ''Be brief.'') None False) = Inl ContextTooLongError
   \<and> fst (prepare_context 4000 [] (Some ''Be brief.'') None False)
       = Inr [mk_message ''system'' ''Be brief.'']"
  using prepare_context_overflow_iff
          [of 4000 "[mk_message ''user'' (replicate 16000 CHR ''a'')]" "Some ''Be brief.''"
              None False]
    prepare_context_overflow_iff [of 4000 "[]" "Some ''Be brief.''" None False]
  by (simp add: eval_defs)

text \<open>
  Claim C1 as stated fails: with the default budget 4000, the system prompt
  \<open>''Be brief.''\<close> and a single user message of 16000 characters, \<open>prepare_context\<close> raises
  \<open>ContextTooLongError\<close> although the system messages are far below the budget and a
  conversation message did exist.
\<close>

theorem prepare_context_overflow_spec_counterexample:
  "\<not> ((fst (prepare_context 4000 [mk_message ''user'' (replicate 16000 CHR ''a'')]
             (Some ''Be brief.'') None False) = Inl ContextTooLongError)
       \<longleftrightarrow>
       (4000 < estimate_total_tokens
                 (context_messages [mk_message ''user'' (replicate 16000 CHR ''a'')]
                    (Some ''Be brief.'') None)
        \<and> (4000 < estimate_total_tokens (system_prompt_messages (Some ''Be brief.''))
           \<or> filter (\<lambda>m. \<not> is_system m) [mk_message ''user'' (replicate 16000 CHR ''a'')]
               = [])))"
  by (simp add: eval_defs)

text \<open>
  Claim C2, as the code has it. When the estimate of the assembled sequence exceeds the
  budget, truncation keeps every message of role \<open>system\<close> (the framing messages and the
  system messages of the windowed history) and, of the other messages of the windowed
  history, what is left after dropping from the oldest end, one at a time, until the rest
  fits in the budget minus the system tokens minus 100. If something is left,
  \<open>prepare_context\<close> returns the system messages followed by it; if nothing is left, it
  fails with \<open>ContextTooLongError\<close>. What is left is the longest fitting suffix of the
  non-system messages of the windowed history, in their order; it is a suffix of the
  windowed history itself when that holds no system message.
\<close>

theorem truncation_drops_oldest:
  assumes "b < estimate_total_tokens (context_messages msgs sp rc)"
  shows "let system_msgs = filter is_system (context_messages msgs sp rc);
             conversation_msgs = filter (\<lambda>m. \<not> is_system m) (windowed_history msgs);
             available = b - estimate_total_tokens system_msgs - 100;
             kept = drop_oldest_until_fit available conversation_msgs
         in fst (prepare_context b msgs sp rc rag) =
              (if kept = [] \<and> context_messages msgs sp rc \<noteq> [] then Inl ContextTooLongError
               else Inr (system_msgs @ kept))
          \<and> system_msgs = system_prompt_messages sp @ fst (retrieved_chunks_messages rc rag)
                             @ filter is_system (windowed_history msgs)
          \<and> suffix kept conversation_msgs
          \<and> (kept \<noteq> [] \<longrightarrow> estimate_total_tokens kept \<le> available)
          \<and> (\<forall>s. suffix s conversation_msgs \<and> estimate_total_tokens s \<le> available
                  \<longrightarrow> suffix s kept)
          \<and> ((\<forall>m \<in> set (windowed_history msgs). \<not> is_system m)
                \<longrightarrow> suffix kept (windowed_history msgs))"
proof -
  have nosys: "(\<forall>m \<in> set (windowed_history msgs). \<not> is_system m) \<Longrightarrow>
      filter (\<lambda>m. \<not> is_system m) (windowed_history msgs) = windowed_history msgs"
    by (simp add: filter_id_conv)
  show ?thesis
    unfolding Let_def
    using prepare_context_truncated [OF assms, of rag] retrieved_chunks_messages_flag [of rc rag]
    by (auto simp: Let_def context_messages_system drop_oldest_suffix drop_oldest_within
        drop_oldest_longest nosys)
qed

theorem truncation_drops_oldest_witness:
  "4000 < estimate_total_tokens
            (context_messages
               [mk_message ''user'' (replicate 16000 CHR ''a''),
                mk_message ''assistant'' ''Hi'', mk_message ''user'' ''Bye'']
               (Some ''Be brief.'') None)
   \<and> fst (prepare_context 4000
            [mk_message ''user'' (replicate 16000 CHR ''a''),
             mk_message ''assistant'' ''Hi'', mk_message ''user'' ''Bye'']
            (Some ''Be brief.'') None False)
       = Inr [mk_message ''system'' ''Be brief.'',
              mk_message ''assistant'' ''Hi'', mk_message ''user'' ''Bye'']"
proof -
  have h: "4000 < estimate_total_tokens
            (context_messages
               [mk_message ''user'' (replicate 16000 CHR ''a''),
                mk_message ''assistant'' ''Hi'', mk_message ''user'' ''Bye'']
               (Some ''Be brief.'') None)"
    by (simp add: eval_defs)
  show ?thesis
    using h truncation_drops_oldest [OF h, of False]
    by (simp add: eval_defs)
qed

text \<open>
  Claim C2 as stated fails on a history that holds a system message: of the history
  (long user message, assistant message, system message, user message) truncation
  returns the system message, the assistant message and the user message. Neither the
  surviving non-system messages nor the surviving history messages as a whole are a
  contiguous suffix of the windowed history.
\<close>

theorem truncation_suffix_counterexample:
  "fst (prepare_context 4000
          [mk_message ''user'' (replicate 16000 CHR ''a''), mk_message ''assistant'' ''Hi'',
           mk_message ''system'' ''Note'', mk_message ''user'' ''Bye'']
          None None False)
     = Inr [mk_message ''system'' ''Note'', mk_message ''assistant'' ''Hi'',
            mk_message ''user'' ''Bye'']
   \<and> \<not> suffix [mk_message ''assistant'' ''Hi'', mk_message ''user'' ''Bye'']
         (fst (apply_sliding_window
                [mk_message ''user'' (replicate 16000 CHR ''a''), mk_message ''assistant'' ''Hi'',
                 mk_message ''system'' ''Note'', mk_message ''user'' ''Bye''] 20))
   \<and> \<not> suffix [mk_message ''system'' ''Note'', mk_message ''assistant'' ''Hi'',
               mk_message ''user'' ''Bye'']
         (fst (apply_sliding_window
                [mk_message ''user'' (replicate 16000 CHR ''a''), mk_message ''assistant'' ''Hi'',
                 mk_message ''system'' ''Note'', mk_message ''user'' ''Bye''] 20))"
  by (simp add: eval_defs apply_sliding_window_def suffix_Cons)

text \<open>
  Claim C10. \<open>truncate_context\<close> partitions its input by the role alone. Whenever it
  returns, the output is all messages of role \<open>system\<close> of the input, in their order,
  followed by a suffix of the other messages of the input: no system message is dropped,
  wherever it came from, and every system message stands before every surviving
  non-system message. A system message of the history can so move ahead of history
  messages that preceded it, as in the instance given.
\<close>

theorem truncate_context_partitions_by_role:
  "(\<forall>out. fst (truncate_context max_context_tokens messages) = Inr out \<longrightarrow>
       filter is_system out = filter is_system messages
       \<and> (\<exists>kept. out = filter is_system messages @ kept
                 \<and> suffix kept (filter (\<lambda>m. \<not> is_system m) messages)
                 \<and> (\<forall>m \<in> set kept. \<not> is_system m)))
   \<and> fst (truncate_context 4000
            [mk_message ''user'' (replicate 16000 CHR ''a''), mk_message ''assistant'' ''Hi'',
             mk_message ''system'' ''Note'', mk_message ''user'' ''Bye''])
       = Inr [mk_message ''system'' ''Note'', mk_message ''assistant'' ''Hi'',
              mk_message ''user'' ''Bye'']"
proof (rule conjI)
  show "\<forall>out. fst (truncate_context max_context_tokens messages) = Inr out \<longrightarrow>
       filter is_system out = filter is_system messages
       \<and> (\<exists>kept. out = filter is_system messages @ kept
                 \<and> suffix kept (filter (\<lambda>m. \<not> is_system m) messages)
                 \<and> (\<forall>m \<in> set kept. \<not> is_system m))"
  proof (rule allI, rule impI)
    fix out
    assume a: "fst (truncate_context max_context_tokens messages) = Inr out"
    define k where "k = drop_oldest_until_fit
                (max_context_tokens - estimate_total_tokens (filter is_system messages) - 100)
                (filter (\<lambda>m. \<not> is_system m) messages)"
    have out: "out = filter is_system messages @ k"
    proof (cases "messages = []")
      case True
      with a show ?thesis by (simp add: truncate_context_def k_def)
    next
      case False
      from a show ?thesis
        unfolding truncate_context_fst [OF False] k_def Let_def
        by (simp split: if_splits)
    qed
    have suf: "suffix k (filter (\<lambda>m. \<not> is_system m) messages)"
      unfolding k_def by (rule drop_oldest_suffix)
    then have sub: "set k \<subseteq> set (filter (\<lambda>m. \<not> is_system m) messages)"
      by (rule set_mono_suffix)
    have nosys: "\<forall>m \<in> set k. \<not> is_system m"
    proof
      fix m assume "m \<in> set k"
      with sub have "m \<in> set (filter (\<lambda>m. \<not> is_system m) messages)" by (rule subsetD)
      then show "\<not> is_system m" by simp
    qed
    then have "filter is_system k = []" by (simp add: filter_empty_conv)
    with out have one: "filter is_system out = filter is_system messages" by simp
    from out suf nosys
    have two: "\<exists>kept. out = filter is_system messages @ kept
                 \<and> suffix kept (filter (\<lambda>m. \<not> is_system m) messages)
                 \<and> (\<forall>m \<in> set kept. \<not> is_system m)"
      by (intro exI [of _ k] conjI)
    from one two
    show "filter is_system out = filter is_system messages
       \<and> (\<exists>kept. out = filter is_system messages @ kept
                 \<and> suffix kept (filter (\<lambda>m. \<not> is_system m) messages)
                 \<and> (\<forall>m \<in> set kept. \<not> is_system m))" ..
  qed
next
  show "fst (truncate_context 4000
            [mk_message ''user'' (replicate 16000 CHR ''a''), mk_message ''assistant'' ''Hi'',
             mk_message ''system'' ''Note'', mk_message ''user'' ''Bye''])
       = Inr [mk_message ''system'' ''Note'', mk_message ''assistant'' ''Hi'',
              mk_message ''user'' ''Bye'']"
    by (simp add: eval_defs)
qed

theorem truncate_context_partitions_by_role_witness:
  "filter is_system
     [mk_message ''system'' ''Be brief.'', mk_message ''system'' ''Note'',
      mk_message ''user'' ''Bye'']
     = filter is_system
         [mk_message ''system'' ''Be brief.'', mk_message ''user'' (replicate 16000 CHR ''a''),
          mk_message ''system'' ''Note'', mk_message ''user'' ''Bye'']
   \<and> fst (truncate_context 4000
            [mk_message ''system'' ''Be brief.'', mk_message ''user'' (replicate 16000 CHR ''a''),
             mk_message ''system'' ''Note'', mk_message ''user'' ''Bye''])
       = Inr [mk_message ''system'' ''Be brief.'', mk_message ''system'' ''Note'',
              mk_message ''user'' ''Bye'']"
proof -
  have r: "fst (truncate_context 4000
            [mk_message ''system'' ''Be brief.'', mk_message ''user'' (replicate 16000 CHR ''a''),
             mk_message ''system'' ''Note'', mk_message ''user'' ''Bye''])
       = Inr [mk_message ''system'' ''Be brief.'', mk_message ''system'' ''Note'',
              mk_message ''user'' ''Bye'']"
    by (simp add: eval_defs)
  from truncate_context_partitions_by_role
         [of 4000 "[mk_message ''system'' ''Be brief.'',
                    mk_message ''user'' (replicate 16000 CHR ''a''),
                    mk_message ''system'' ''Note'', mk_message ''user'' ''Bye'']"] r
  have a: "filter is_system
     [mk_message ''system'' ''Be brief.'', mk_message ''system'' ''Note'',
      mk_message ''user'' ''Bye'']
     = filter is_system
         [mk_message ''system'' ''Be brief.'', mk_message ''user'' (replicate 16000 CHR ''a''),
          mk_message ''system'' ''Note'', mk_message ''user'' ''Bye'']"
    by blast
  from a r show ?thesis ..
qed

text \<open>
  Claim C6. With a non-empty list of retrieved chunks, whenever \<open>prepare_context\<close>
  returns, its output is the system prompt message (if any), then exactly one system
  message whose content is the instruction followed by the chunks, then messages of the
  history only. The chunks stand in input order, chunk \<open>i\<close> (from 0) under the label
  \<open>[Context i+1]\<close> on a line of its own, the entries separated by an empty line; for the
  chunks A, B, C the text is as the scenario gives it. Without chunks (none, or an empty
  list) no such message is emitted: the output is the system prompt message followed by
  history messages; with \<open>rag_enabled\<close> the result is the one obtained without it, and the
  log starts with the warning.
\<close>

theorem prepare_context_chunks_message:
  "(\<forall>c cs out. fst (prepare_context b msgs sp (Some (c # cs)) rag) = Inr out \<longrightarrow>
       (\<exists>rest. out = system_prompt_messages sp
                       @ [\<lparr>role = Some ''system'', content = Some (context_content (c # cs))\<rparr>]
                       @ rest
               \<and> set rest \<subseteq> set msgs))
   \<and> context_content chunks =
        context_header @ join ''\<newline>\<newline>''
          (map (\<lambda>i. ''[Context '' @ str_nat (i + 1) @ '']\<newline>'' @ chunks ! i) [0..<length chunks])
   \<and> chunks_text [''A'', ''B'', ''C'']
        = ''[Context 1]\<newline>A\<newline>\<newline>[Context 2]\<newline>B\<newline>\<newline>[Context 3]\<newline>C''
   \<and> (\<forall>rc. rc = None \<or> rc = Some [] \<longrightarrow>
         fst (prepare_context b msgs sp rc True) = fst (prepare_context b msgs sp rc False)
         \<and> snd (prepare_context b msgs sp rc True)
             = Warning_rag_no_chunks # snd (prepare_context b msgs sp rc False)
         \<and> (\<forall>out. fst (prepare_context b msgs sp rc True) = Inr out \<longrightarrow>
               (\<exists>rest. out = system_prompt_messages sp @ rest \<and> set rest \<subseteq> set msgs)))"
proof (intro conjI allI impI)
  fix c cs out
  assume "fst (prepare_context b msgs sp (Some (c # cs)) rag) = Inr out"
  from prepare_context_shape [OF this]
  show "\<exists>rest. out = system_prompt_messages sp
                       @ [\<lparr>role = Some ''system'', content = Some (context_content (c # cs))\<rparr>]
                       @ rest
               \<and> set rest \<subseteq> set msgs"
    by (simp add: retrieved_chunks_messages_def)
next
  show "context_content chunks =
        context_header @ join ''\<newline>\<newline>''
          (map (\<lambda>i. ''[Context '' @ str_nat (i + 1) @ '']\<newline>'' @ chunks ! i) [0..<length chunks])"
    by (simp only: context_content_def chunks_text_def context_entries_nth)
next
  show "chunks_text [''A'', ''B'', ''C'']
        = ''[Context 1]\<newline>A\<newline>\<newline>[Context 2]\<newline>B\<newline>\<newline>[Context 3]\<newline>C''"
    by code_simp
next
  fix rc :: "string list option"
  assume rc: "rc = None \<or> rc = Some []"
  from prepare_context_rag_flag [OF rc]
  show "fst (prepare_context b msgs sp rc True) = fst (prepare_context b msgs sp rc False)"
    and "snd (prepare_context b msgs sp rc True)
             = Warning_rag_no_chunks # snd (prepare_context b msgs sp rc False)"
    by simp_all
  fix out
  assume "fst (prepare_context b msgs sp rc True) = Inr out"
  from prepare_context_shape [OF this] rc
  show "\<exists>rest. out = system_prompt_messages sp @ rest \<and> set rest \<subseteq> set msgs"
    by (auto simp: retrieved_chunks_messages_def)
qed

theorem prepare_context_chunks_message_witness:
  "fst (prepare_context 4000 [mk_message ''user'' ''Hello''] (Some ''Be brief.'')
          (Some [''A'', ''B'', ''C'']) True)
     = Inr [mk_message ''system'' ''Be brief.'',
            mk_message ''system'' (context_content [''A'', ''B'', ''C'']),
            mk_message ''user'' ''Hello'']
   \<and> prepare_context 4000 [mk_message ''user'' ''Hello''] (Some ''Be brief.'') (Some []) True
     = (Inr [mk_message ''system'' ''Be brief.'', mk_message ''user'' ''Hello''],
        [Warning_rag_no_chunks])"
proof -
  have len: "length (context_content [''A'', ''B'', ''C'']) = 339"
    by code_simp
  have r: "fst (prepare_context 4000 [mk_message ''user'' ''Hello''] (Some ''Be brief.'')
          (Some [''A'', ''B'', ''C'']) True)
     = Inr [mk_message ''system'' ''Be brief.'',
            mk_message ''system'' (context_content [''A'', ''B'', ''C'']),
            mk_message ''user'' ''Hello'']"
    by (simp add: eval_defs len)
  have f: "prepare_context 4000 [mk_message ''user'' ''Hello''] (Some ''Be brief.'') (Some []) False
     = (Inr [mk_message ''system'' ''Be brief.'', mk_message ''user'' ''Hello''], [])"
    by (simp add: prepare_context_def retrieved_chunks_messages_def apply_sliding_window_def
        system_prompt_messages_def mk_message_def estimate_sum get_content_def)
  from prepare_context_chunks_message
         [of 4000 "[mk_message ''user'' ''Hello'']" "Some ''Be brief.''" True "[]"] r f
  show ?thesis by (simp add: prod_eq_iff)
qed

section \<open>Facts about the retriever\<close>

lemma py_slice_to_take: "0 \<le> k \<Longrightarrow> py_slice_to k xs = take (nat k) xs"
  by (auto simp: py_slice_to_def Let_def min_def)

lemma fallback_loop_ok:
  assumes "\<forall>d \<in> set ds. \<not> fault db (Select_chunks_by_document d)" and "0 \<le> mx"
  shows "\<exists>texts log'. fallback_loop db mx ds acc log = (Inr texts, log')
           \<and> take (nat mx) texts =
               take (nat mx) (acc @ concat (map (\<lambda>d. map chunk_text (take 3 (order_by_chunk_index
                   (filter (\<lambda>r. chunk_document_id r = d) (document_chunks db))))) ds))"
  using assms
proof (induction ds arbitrary: acc log)
  case Nil
  then show ?case by simp
next
  case (Cons d ds)
  let ?rows = "order_by_chunk_index (filter (\<lambda>r. chunk_document_id r = d) (document_chunks db))"
  have g: "get_chunks_by_document db d = Inr ?rows"
    using Cons.prems by (simp add: get_chunks_by_document_def)
  show ?case
  proof (cases "?rows = []")
    case True
    have "fallback_loop db mx (d # ds) acc log = fallback_loop db mx ds acc log"
      using g True by simp
    moreover from Cons.IH [of acc log] Cons.prems
    obtain texts log' where "fallback_loop db mx ds acc log = (Inr texts, log')"
      and "take (nat mx) texts =
               take (nat mx) (acc @ concat (map (\<lambda>d. map chunk_text (take 3 (order_by_chunk_index
                   (filter (\<lambda>r. chunk_document_id r = d) (document_chunks db))))) ds))"
      by auto
    ultimately show ?thesis using True by simp
  next
    case False
    let ?acc = "acc @ map chunk_text (take 3 ?rows)"
    let ?log = "log @ [Info_fallback (length (take 3 ?rows)) d]"
    show ?thesis
    proof (cases "mx \<le> int (length ?acc)")
      case True
      then have "fallback_loop db mx (d # ds) acc log = (Inr ?acc, ?log)"
        using g False by (simp add: Let_def)
      moreover from True have "nat mx \<le> length ?acc" by linarith
      then have "take (nat mx) ?acc = take (nat mx) (?acc @ rest)" for rest
        by simp
      ultimately show ?thesis by (simp del: take_append)
    next
      case F2: False
      then have "fallback_loop db mx (d # ds) acc log = fallback_loop db mx ds ?acc ?log"
        using g False by (simp add: Let_def)
      moreover from Cons.IH [of ?acc ?log] Cons.prems
      obtain texts log' where "fallback_loop db mx ds ?acc ?log = (Inr texts, log')"
        and "take (nat mx) texts =
               take (nat mx) (?acc @ concat (map (\<lambda>d. map chunk_text (take 3 (order_by_chunk_index
                   (filter (\<lambda>r. chunk_document_id r = d) (document_chunks db))))) ds))"
        by auto
      ultimately show ?thesis by simp
    qed
  qed
qed

lemma sorted_order_by_chunk_index: "sorted (map chunk_index (order_by_chunk_index rows))"
  by (simp add: order_by_chunk_index_def)

lemma set_order_by_chunk_index: "set (order_by_chunk_index rows) = set rows"
  by (simp add: order_by_chunk_index_def)

lemma retrieve_length:
  "0 \<le> mx \<Longrightarrow> length (fst (retrieve_relevant_chunks db mx cid q)) \<le> nat mx"
  by (auto simp: retrieve_relevant_chunks_def retrieve_try_def Let_def py_slice_to_take
      split: sum.splits prod.splits if_splits)

section \<open>Claims about the retriever\<close>

text \<open>
  Claim C7. When the conversation has linked documents, the search returns no chunk and
  no statement of the fallback fails, \<open>retrieve_relevant_chunks\<close> returns the texts of the
  first chunks by ascending index of every linked document, at most 3 per document, the
  documents in linked order, cut at \<open>max_chunks\<close>. Whatever the path (search, fallback or
  error), the returned list is never longer than \<open>max_chunks\<close>, a count that is not
  negative.
\<close>

theorem fallback_first_chunks:
  "(0 \<le> max_chunks \<longrightarrow>
      length (fst (retrieve_relevant_chunks db max_chunks conversation_id user_query))
        \<le> nat max_chunks)
   \<and> (0 \<le> max_chunks
        \<and> get_conversation_by_id db conversation_id = Inr conversation
        \<and> get_linked_documents db (conv_id conversation) = Inr linked_docs
        \<and> linked_docs \<noteq> []
        \<and> search_chunks db (map doc_id linked_docs) user_query max_chunks = Inr []
        \<and> (\<forall>d \<in> set linked_docs. \<not> fault db (Select_chunks_by_document (doc_id d)))
      \<longrightarrow>
        fst (retrieve_relevant_chunks db max_chunks conversation_id user_query)
          = take (nat max_chunks)
              (concat (map (\<lambda>d. map chunk_text (take 3 (order_by_chunk_index
                   (filter (\<lambda>r. chunk_document_id r = doc_id d) (document_chunks db)))))
                 linked_docs)))
   \<and> sorted (map chunk_index (order_by_chunk_index
                (filter (\<lambda>r. chunk_document_id r = d) (document_chunks db))))
   \<and> set (order_by_chunk_index (filter (\<lambda>r. chunk_document_id r = d) (document_chunks db)))
       = {r \<in> set (document_chunks db). chunk_document_id r = d}"
proof (intro conjI impI)
  assume "0 \<le> max_chunks"
  then show "length (fst (retrieve_relevant_chunks db max_chunks conversation_id user_query))
        \<le> nat max_chunks"
    by (rule retrieve_length)
next
  assume a: "0 \<le> max_chunks
        \<and> get_conversation_by_id db conversation_id = Inr conversation
        \<and> get_linked_documents db (conv_id conversation) = Inr linked_docs
        \<and> linked_docs \<noteq> []
        \<and> search_chunks db (map doc_id linked_docs) user_query max_chunks = Inr []
        \<and> (\<forall>d \<in> set linked_docs. \<not> fault db (Select_chunks_by_document (doc_id d)))"
  then have nofault: "\<forall>d \<in> set (map doc_id linked_docs). \<not> fault db (Select_chunks_by_document d)"
    by simp
  from a have mx: "0 \<le> max_chunks" by simp
  from fallback_loop_ok [OF nofault mx, of "[]" "[Warning_no_chunks_found]"]
  obtain texts log' where
    fl: "fallback_loop db max_chunks (map doc_id linked_docs) [] [Warning_no_chunks_found]
           = (Inr texts, log')"
    and tk: "take (nat max_chunks) texts =
               take (nat max_chunks) ([] @ concat (map (\<lambda>d. map chunk_text (take 3
                 (order_by_chunk_index
                   (filter (\<lambda>r. chunk_document_id r = d) (document_chunks db)))))
                 (map doc_id linked_docs)))"
    by blast
  have "fst (retrieve_relevant_chunks db max_chunks conversation_id user_query)
          = py_slice_to max_chunks texts"
    using a fl by (simp add: retrieve_relevant_chunks_def retrieve_try_def)
  also have "\<dots> = take (nat max_chunks) texts" using mx by (rule py_slice_to_take)
  finally show "fst (retrieve_relevant_chunks db max_chunks conversation_id user_query)
          = take (nat max_chunks)
              (concat (map (\<lambda>d. map chunk_text (take 3 (order_by_chunk_index
                   (filter (\<lambda>r. chunk_document_id r = doc_id d) (document_chunks db)))))
                 linked_docs))"
    using tk by (simp add: comp_def)
next
  show "sorted (map chunk_index (order_by_chunk_index
                (filter (\<lambda>r. chunk_document_id r = d) (document_chunks db))))"
    by (rule sorted_order_by_chunk_index)
next
  show "set (order_by_chunk_index (filter (\<lambda>r. chunk_document_id r = d) (document_chunks db)))
       = {r \<in> set (document_chunks db). chunk_document_id r = d}"
    by (simp add: set_order_by_chunk_index)
qed

theorem fallback_first_chunks_witness:
  "fst (retrieve_relevant_chunks example_database 5 ''c1'' ''budget'')
     = [''a0'', ''a1'', ''a2'', ''b0'', ''b1'']"
proof -
  have c: "get_conversation_by_id example_database ''c1''
             = Inr \<lparr>conv_id = 10, conv_conversation_id = ''c1'', conv_status = ''active''\<rparr>"
    by (simp add: get_conversation_by_id_def example_database_def)
  have l: "get_linked_documents example_database
             (conv_id \<lparr>conv_id = 10, conv_conversation_id = ''c1'', conv_status = ''active''\<rparr>)
             = Inr [\<lparr>doc_id = 1\<rparr>, \<lparr>doc_id = 2\<rparr>]"
    by (simp add: get_linked_documents_def example_database_def)
  have s: "search_chunks example_database (map doc_id [\<lparr>doc_id = 1\<rparr>, \<lparr>doc_id = 2\<rparr>]) ''budget'' 5
             = Inr []"
    by (simp add: search_chunks_def select_fulltext_def select_like_def py_split_def
        is_space_def example_database_def order_by_chunk_index_def)
  have f: "\<forall>d \<in> set [\<lparr>doc_id = 1\<rparr>, \<lparr>doc_id = 2\<rparr>].
             \<not> fault example_database (Select_chunks_by_document (doc_id d))"
    by (simp add: example_database_def)
  from fallback_first_chunks
         [of 5 example_database "''c1''" "''budget''"
             "\<lparr>conv_id = 10, conv_conversation_id = ''c1'', conv_status = ''active''\<rparr>"
             "[\<lparr>doc_id = 1\<rparr>, \<lparr>doc_id = 2\<rparr>]"] c l s f
  have "fst (retrieve_relevant_chunks example_database 5 ''c1'' ''budget'')
          = take (nat 5)
              (concat (map (\<lambda>d. map chunk_text (take 3 (order_by_chunk_index
                   (filter (\<lambda>r. chunk_document_id r = doc_id d) (document_chunks example_database)))))
                 [\<lparr>doc_id = 1\<rparr>, \<lparr>doc_id = 2\<rparr>]))"
    by simp
  then show ?thesis
    by (simp add: example_database_def order_by_chunk_index_def)
qed

text \<open>
  Claim C8. \<open>retrieve_relevant_chunks\<close> always returns a list. For a conversation without
  linked documents it returns the empty list and logs a warning, no error. Every
  exception that leaves its \<open>try\<close> block is logged as an error and answered with the empty
  list: a failed or unsuccessful conversation lookup, a failed query for the linked
  documents, a failed search, a failed query for the chunks of a document in the fallback,
  and in particular a storage on which every statement fails.
\<close>

theorem retrieve_never_raises:
  "(get_conversation_by_id db conversation_id = Inr conversation
      \<and> get_linked_documents db (conv_id conversation) = Inr []
     \<longrightarrow> retrieve_relevant_chunks db max_chunks conversation_id user_query
           = ([], [Warning_no_documents conversation_id]))
   \<and> (\<forall>e log. retrieve_try db max_chunks conversation_id user_query = (Inl e, log)
        \<longrightarrow> retrieve_relevant_chunks db max_chunks conversation_id user_query
              = ([], log @ [Error_retrieving e]))
   \<and> (\<forall>e. get_conversation_by_id db conversation_id = Inl e
        \<longrightarrow> retrieve_relevant_chunks db max_chunks conversation_id user_query
              = ([], [Error_retrieving e]))
   \<and> (\<forall>e. get_conversation_by_id db conversation_id = Inr conversation
            \<and> get_linked_documents db (conv_id conversation) = Inl e
        \<longrightarrow> retrieve_relevant_chunks db max_chunks conversation_id user_query
              = ([], [Error_retrieving e]))
   \<and> (\<forall>e linked_docs. get_conversation_by_id db conversation_id = Inr conversation
            \<and> get_linked_documents db (conv_id conversation) = Inr linked_docs
            \<and> linked_docs \<noteq> []
            \<and> search_chunks db (map doc_id linked_docs) user_query max_chunks = Inl e
        \<longrightarrow> retrieve_relevant_chunks db max_chunks conversation_id user_query
              = ([], [Error_retrieving e]))
   \<and> (\<forall>e log linked_docs. get_conversation_by_id db conversation_id = Inr conversation
            \<and> get_linked_documents db (conv_id conversation) = Inr linked_docs
            \<and> linked_docs \<noteq> []
            \<and> search_chunks db (map doc_id linked_docs) user_query max_chunks = Inr []
            \<and> fallback_loop db max_chunks (map doc_id linked_docs) [] [Warning_no_chunks_found]
                = (Inl e, log)
        \<longrightarrow> retrieve_relevant_chunks db max_chunks conversation_id user_query
              = ([], log @ [Error_retrieving e]))
   \<and> ((\<forall>q. fault db q)
        \<longrightarrow> retrieve_relevant_chunks db max_chunks conversation_id user_query
              = ([], [Error_retrieving DatabaseError]))
   \<and> (\<not> fault db (Select_conversation conversation_id)
        \<and> (\<forall>c \<in> set (conversations db).
              conv_conversation_id c = conversation_id \<longrightarrow> conv_status c = ''deleted'')
        \<longrightarrow> retrieve_relevant_chunks db max_chunks conversation_id user_query
              = ([], [Error_retrieving (ConversationNotFoundError conversation_id)]))"
proof (intro conjI allI impI)
  assume "\<forall>q. fault db q"
  then have "get_conversation_by_id db conversation_id = Inl DatabaseError"
    by (simp add: get_conversation_by_id_def)
  then show "retrieve_relevant_chunks db max_chunks conversation_id user_query
              = ([], [Error_retrieving DatabaseError])"
    by (simp add: retrieve_relevant_chunks_def retrieve_try_def)
next
  assume a: "\<not> fault db (Select_conversation conversation_id)
        \<and> (\<forall>c \<in> set (conversations db).
              conv_conversation_id c = conversation_id \<longrightarrow> conv_status c = ''deleted'')"
  then have "filter (\<lambda>c. conv_conversation_id c = conversation_id
                          \<and> conv_status c \<noteq> ''deleted'') (conversations db) = []"
    by (auto simp: filter_empty_conv)
  with a have "get_conversation_by_id db conversation_id
                 = Inl (ConversationNotFoundError conversation_id)"
    by (simp add: get_conversation_by_id_def)
  then show "retrieve_relevant_chunks db max_chunks conversation_id user_query
              = ([], [Error_retrieving (ConversationNotFoundError conversation_id)])"
    by (simp add: retrieve_relevant_chunks_def retrieve_try_def)
qed (simp_all add: retrieve_relevant_chunks_def retrieve_try_def)

theorem retrieve_never_raises_witness:
  "retrieve_relevant_chunks example_database 5 ''c2'' ''budget''
     = ([], [Warning_no_documents ''c2''])
   \<and> retrieve_relevant_chunks example_database 5 ''nope'' ''budget''
       = ([], [Error_retrieving (ConversationNotFoundError ''nope'')])
   \<and> retrieve_relevant_chunks (example_database\<lparr>fault := (\<lambda>q. True)\<rparr>) 5 ''c1'' ''budget''
       = ([], [Error_retrieving DatabaseError])"
proof -
  have c: "get_conversation_by_id example_database ''c2''
             = Inr \<lparr>conv_id = 11, conv_conversation_id = ''c2'', conv_status = ''active''\<rparr>"
    by (simp add: get_conversation_by_id_def example_database_def)
  have l: "get_linked_documents example_database
             (conv_id \<lparr>conv_id = 11, conv_conversation_id = ''c2'', conv_status = ''active''\<rparr>)
             = Inr []"
    by (simp add: get_linked_documents_def example_database_def)
  have n: "\<not> fault example_database (Select_conversation ''nope'')
        \<and> (\<forall>c \<in> set (conversations example_database).
              conv_conversation_id c = ''nope'' \<longrightarrow> conv_status c = ''deleted'')"
    by (simp add: example_database_def)
  have f: "\<forall>q. fault (example_database\<lparr>fault := (\<lambda>q. True)\<rparr>) q"
    by simp
  from retrieve_never_raises
         [of example_database "''c2''"
             "\<lparr>conv_id = 11, conv_conversation_id = ''c2'', conv_status = ''active''\<rparr>"
             5 "''budget''"] c l
  have one: "retrieve_relevant_chunks example_database 5 ''c2'' ''budget''
     = ([], [Warning_no_documents ''c2''])"
    by blast
  from retrieve_never_raises [of example_database "''nope''" _ 5 "''budget''"] n
  have two: "retrieve_relevant_chunks example_database 5 ''nope'' ''budget''
       = ([], [Error_retrieving (ConversationNotFoundError ''nope'')])"
    by blast
  from retrieve_never_raises
         [of "example_database\<lparr>fault := (\<lambda>q. True)\<rparr>" "''c1''" _ 5 "''budget''"] f
  have three: "retrieve_relevant_chunks (example_database\<lparr>fault := (\<lambda>q. True)\<rparr>) 5 ''c1'' ''budget''
       = ([], [Error_retrieving DatabaseError])"
    by blast
  from one two three show ?thesis by (intro conjI)
qed

text \<open>
  Claim C9, as the code has it. \<open>search_chunks\<close> returns the chunks of the given
  documents that match the query, ordered by ascending chunk index alone, across all the
  documents, and cut to \<open>limit\<close>: the first \<open>limit\<close> matching rows in this order. The match
  is the full-text match of the query when that statement succeeds and finds something;
  otherwise it is the LIKE match of \<open>%keyword%\<close> for some keyword of the query, or every
  chunk of the documents when the query has no keyword. Neither a relevance score nor
  the order in which the documents were linked plays a part. It may return fewer than
  \<open>limit\<close> rows, or none.
\<close>

theorem search_chunks_by_chunk_index:
  assumes "search_chunks db doc_db_ids search_query limit = Inr rows"
  shows "let first_by_index = (\<lambda>matches. take (nat limit) (sort_key chunk_index
               (filter (\<lambda>r. chunk_document_id r \<in> set doc_db_ids \<and> matches r)
                  (document_chunks db))));
             fulltext = first_by_index (\<lambda>r. match_against db search_query (chunk_text r));
             fulltext_found =
               (\<not> fault db (Select_fulltext doc_db_ids search_query limit) \<and> 0 \<le> limit
                \<and> fulltext \<noteq> [])
         in rows =
              (if fulltext_found then fulltext
               else if py_split search_query = [] then first_by_index (\<lambda>r. True)
               else first_by_index
                      (\<lambda>r. list_ex (\<lambda>keyword. like db (''%'' @ keyword @ ''%'') (chunk_text r))
                             (py_split search_query)))
            \<and> sorted (map chunk_index rows)
            \<and> length rows \<le> nat limit
            \<and> set rows
                \<subseteq> {r \<in> set (document_chunks db). chunk_document_id r \<in> set doc_db_ids}"
proof -
  define first_by_index where
    "first_by_index = (\<lambda>matches. take (nat limit) (sort_key chunk_index
               (filter (\<lambda>r. chunk_document_id r \<in> set doc_db_ids \<and> matches r)
                  (document_chunks db))))"
  define fulltext where
    "fulltext = first_by_index (\<lambda>r. match_against db search_query (chunk_text r))"
  define fulltext_found where
    "fulltext_found \<longleftrightarrow>
       \<not> fault db (Select_fulltext doc_db_ids search_query limit) \<and> 0 \<le> limit \<and> fulltext \<noteq> []"
  define chosen where
    "chosen = (if fulltext_found then fulltext
               else if py_split search_query = [] then first_by_index (\<lambda>r. True)
               else first_by_index
                      (\<lambda>r. list_ex (\<lambda>keyword. like db (''%'' @ keyword @ ''%'') (chunk_text r))
                             (py_split search_query)))"
  have sorted_first: "sorted (map chunk_index (first_by_index m))" for m
    unfolding first_by_index_def by (simp add: sorted_wrt_take flip: take_map)
  have length_first: "length (first_by_index m) \<le> nat limit" for m
    unfolding first_by_index_def by simp
  have set_first: "set (first_by_index m)
      \<subseteq> {r \<in> set (document_chunks db). chunk_document_id r \<in> set doc_db_ids}" for m
  proof
    fix x assume "x \<in> set (first_by_index m)"
    then have "x \<in> set (sort_key chunk_index
               (filter (\<lambda>r. chunk_document_id r \<in> set doc_db_ids \<and> m r) (document_chunks db)))"
      unfolding first_by_index_def by (rule in_set_takeD)
    then show "x \<in> {r \<in> set (document_chunks db). chunk_document_id r \<in> set doc_db_ids}"
      by simp
  qed
  have empty_first: "doc_db_ids = [] \<Longrightarrow> first_by_index m = []" for m
    unfolding first_by_index_def by simp
  have ft: "select_fulltext db doc_db_ids search_query limit =
              (if fault db (Select_fulltext doc_db_ids search_query limit) \<or> limit < 0
               then Inl DatabaseError else Inr fulltext)"
    by (simp add: select_fulltext_def fulltext_def first_by_index_def order_by_chunk_index_def)
  have rows: "rows = chosen"
  proof (cases "doc_db_ids = []")
    case True
    with assms have "rows = []" by (simp add: search_chunks_def)
    moreover from True have "chosen = []"
      by (simp add: chosen_def fulltext_found_def fulltext_def empty_first)
    ultimately show ?thesis by simp
  next
    case ids: False
    show ?thesis
    proof (cases fulltext_found)
      case True
      then obtain r rs where cons: "fulltext = r # rs"
        by (auto simp: fulltext_found_def neq_Nil_conv)
      from True have "select_fulltext db doc_db_ids search_query limit = Inr (r # rs)"
        by (simp add: ft fulltext_found_def cons)
      with ids have "search_chunks db doc_db_ids search_query limit = Inr (r # rs)"
        by (simp add: search_chunks_def)
      with assms have "rows = fulltext" by (simp add: cons)
      with True show ?thesis by (simp add: chosen_def)
    next
      case False
      then have fb: "search_chunks db doc_db_ids search_query limit =
          (if py_split search_query = [] then select_first_chunks db doc_db_ids limit
           else select_like db doc_db_ids
                  (map (\<lambda>keyword. ''%'' @ keyword @ ''%'') (py_split search_query)) limit)"
        using ids by (auto simp: search_chunks_def ft fulltext_found_def Let_def)
      show ?thesis
      proof (cases "py_split search_query = []")
        case True
        with assms fb have "rows = first_by_index (\<lambda>r. True)"
          by (simp add: select_first_chunks_def first_by_index_def order_by_chunk_index_def
              split: if_splits)
        with True False show ?thesis by (simp add: chosen_def)
      next
        case nk: False
        have le: "list_ex P (map f xs) = list_ex (\<lambda>x. P (f x)) xs"
          for P :: "string \<Rightarrow> bool" and f :: "string \<Rightarrow> string" and xs
          by (simp add: list_ex_iff)
        from assms fb nk
        have "rows = first_by_index
                      (\<lambda>r. list_ex (\<lambda>keyword. like db (''%'' @ keyword @ ''%'') (chunk_text r))
                             (py_split search_query))"
          by (simp add: select_like_def first_by_index_def order_by_chunk_index_def le
              split: if_splits)
        with nk False show ?thesis by (simp add: chosen_def)
      qed
    qed
  qed
  have "sorted (map chunk_index chosen)"
    by (simp add: chosen_def fulltext_def sorted_first)
  moreover have "length chosen \<le> nat limit"
    by (simp add: chosen_def fulltext_def length_first)
  moreover have "set chosen
      \<subseteq> {r \<in> set (document_chunks db). chunk_document_id r \<in> set doc_db_ids}"
    using set_first by (simp add: chosen_def fulltext_def)
  ultimately have "rows = chosen \<and> sorted (map chunk_index rows) \<and> length rows \<le> nat limit
      \<and> set rows \<subseteq> {r \<in> set (document_chunks db). chunk_document_id r \<in> set doc_db_ids}"
    using rows by simp
  then show ?thesis
    unfolding Let_def chosen_def fulltext_found_def fulltext_def first_by_index_def .
qed

theorem search_chunks_by_chunk_index_witness:
  "search_chunks
     (example_database\<lparr>match_against :=
        (\<lambda>search_query text. search_query = ''invoice'' \<and> (text = ''a2'' \<or> text = ''b1''))\<rparr>)
     [1, 2] ''invoice'' 5
     = Inr [\<lparr>chunk_document_id = 2, chunk_index = 1, chunk_text = ''b1''\<rparr>,
            \<lparr>chunk_document_id = 1, chunk_index = 2, chunk_text = ''a2''\<rparr>]
   \<and> search_chunks
       (example_database\<lparr>like := (\<lambda>pattern text. pattern = ''%'' @ text @ ''%'')\<rparr>)
       [1, 2] ''a1  b0'' 5
     = Inr [\<lparr>chunk_document_id = 2, chunk_index = 0, chunk_text = ''b0''\<rparr>,
            \<lparr>chunk_document_id = 1, chunk_index = 1, chunk_text = ''a1''\<rparr>]
   \<and> search_chunks example_database [2, 1] '''' 3
     = Inr [\<lparr>chunk_document_id = 1, chunk_index = 0, chunk_text = ''a0''\<rparr>,
            \<lparr>chunk_document_id = 2, chunk_index = 0, chunk_text = ''b0''\<rparr>,
            \<lparr>chunk_document_id = 1, chunk_index = 1, chunk_text = ''a1''\<rparr>]
   \<and> search_chunks example_database [1, 2] ''budget'' 5 = Inr []
   \<and> sorted (map chunk_index
       [\<lparr>chunk_document_id = 2, chunk_index = 1, chunk_text = ''b1''\<rparr>,
        \<lparr>chunk_document_id = 1, chunk_index = 2, chunk_text = ''a2''\<rparr>])"
proof -
  have s1: "search_chunks
     (example_database\<lparr>match_against :=
        (\<lambda>search_query text. search_query = ''invoice'' \<and> (text = ''a2'' \<or> text = ''b1''))\<rparr>)
     [1, 2] ''invoice'' 5
     = Inr [\<lparr>chunk_document_id = 2, chunk_index = 1, chunk_text = ''b1''\<rparr>,
            \<lparr>chunk_document_id = 1, chunk_index = 2, chunk_text = ''a2''\<rparr>]"
    by (simp add: search_chunks_def select_fulltext_def example_database_def
        order_by_chunk_index_def)
  have s2: "search_chunks
       (example_database\<lparr>like := (\<lambda>pattern text. pattern = ''%'' @ text @ ''%'')\<rparr>)
       [1, 2] ''a1  b0'' 5
     = Inr [\<lparr>chunk_document_id = 2, chunk_index = 0, chunk_text = ''b0''\<rparr>,
            \<lparr>chunk_document_id = 1, chunk_index = 1, chunk_text = ''a1''\<rparr>]"
    by (simp add: search_chunks_def select_fulltext_def select_like_def py_split_def
        is_space_def example_database_def order_by_chunk_index_def)
  have s3: "search_chunks example_database [2, 1] '''' 3
     = Inr [\<lparr>chunk_document_id = 1, chunk_index = 0, chunk_text = ''a0''\<rparr>,
            \<lparr>chunk_document_id = 2, chunk_index = 0, chunk_text = ''b0''\<rparr>,
            \<lparr>chunk_document_id = 1, chunk_index = 1, chunk_text = ''a1''\<rparr>]"
    by (simp add: search_chunks_def select_fulltext_def select_first_chunks_def py_split_def
        example_database_def order_by_chunk_index_def)
  have s4: "search_chunks example_database [1, 2] ''budget'' 5 = Inr []"
    by (simp add: search_chunks_def select_fulltext_def select_like_def py_split_def
        is_space_def example_database_def order_by_chunk_index_def)
  note t = search_chunks_by_chunk_index [OF s1, unfolded Let_def]
  from t have "sorted (map chunk_index
       [\<lparr>chunk_document_id = 2, chunk_index = 1, chunk_text = ''b1''\<rparr>,
        \<lparr>chunk_document_id = 1, chunk_index = 2, chunk_text = ''a2''\<rparr>])"
    by blast
  with s1 s2 s3 s4 show ?thesis by (intro conjI)
qed

text \<open>
  Claim C9 as stated fails: for the documents 1 and 2, linked in this order, and a query
  without keywords, \<open>search_chunks\<close> with limit 5 returns the chunks with index 0 of both
  documents, then those with index 1, then chunk 2 of document 1. This is not the order
  of the claim, which lists the chunks of document 1 before those of document 2.
\<close>

theorem search_chunks_linked_order_counterexample:
  "search_chunks example_database [1, 2] '''' 5
     = Inr [\<lparr>chunk_document_id = 1, chunk_index = 0, chunk_text = ''a0''\<rparr>,
            \<lparr>chunk_document_id = 2, chunk_index = 0, chunk_text = ''b0''\<rparr>,
            \<lparr>chunk_document_id = 1, chunk_index = 1, chunk_text = ''a1''\<rparr>,
            \<lparr>chunk_document_id = 2, chunk_index = 1, chunk_text = ''b1''\<rparr>,
            \<lparr>chunk_document_id = 1, chunk_index = 2, chunk_text = ''a2''\<rparr>]
   \<and> \<not> linked_order [1, 2]
         [\<lparr>chunk_document_id = 1, chunk_index = 0, chunk_text = ''a0''\<rparr>,
          \<lparr>chunk_document_id = 2, chunk_index = 0, chunk_text = ''b0''\<rparr>,
          \<lparr>chunk_document_id = 1, chunk_index = 1, chunk_text = ''a1''\<rparr>,
          \<lparr>chunk_document_id = 2, chunk_index = 1, chunk_text = ''b1''\<rparr>,
          \<lparr>chunk_document_id = 1, chunk_index = 2, chunk_text = ''a2''\<rparr>]"
  by (simp add: search_chunks_def select_fulltext_def select_first_chunks_def py_split_def
      example_database_def order_by_chunk_index_def linked_order_def doc_rank_def)

end
